theory Spec2Isabelle
  imports Main "HOL-Library.Word" "HOL-Library.Sublist"
begin

section \<open>The sniffer and relay firmware (esp\_sniff\_envoie.c)\<close>

text \<open>
  The firmware has two modes. In \<open>MODE_SNIFF\<close> the radio callback copies every received
  IEEE 802.15.4 frame into a heap record and offers the pointer to a bounded queue; a task
  renders each queued record as one text line on the UART. In \<open>MODE_TX\<close> a second task
  hands every UART chunk that is not a command to the radio. Commands start with
  \<open>#CMD#\<close> and switch the mode or print a status line.

  The embedding follows the C file function by function. Global variables are the fields
  of \<open>fw_state\<close>. Calls into ESP-IDF and FreeRTOS are appended to \<open>sys_log\<close>, log lines
  to \<open>esp_log\<close>. What C leaves undefined (a \<open>memcpy\<close> past the end of an array, a
  read outside an object) and what aborts the process (\<open>ESP_ERROR_CHECK\<close>) is a value of
  type \<open>error\<close>.
\<close>

subsection \<open>Configuration constants\<close>

definition BUF_SIZE :: nat where
  "BUF_SIZE = 2048"

definition MAX_FRAME_SIZE :: nat where
  "MAX_FRAME_SIZE = 127"

definition CMD_PREFIX :: string where
  "CMD_PREFIX = ''#CMD#''"

definition CMD_PREFIX_LEN :: nat where
  "CMD_PREFIX_LEN = 5"

definition CHANNEL :: nat where
  "CHANNEL = 13"

definition QUEUE_SIZE :: nat where
  "QUEUE_SIZE = 40"

definition UART_BAUD_RATE :: nat where
  "UART_BAUD_RATE = 115200"

subsection \<open>Types\<close>

datatype operation_mode_t = MODE_SNIFF | MODE_TX

text \<open>
  \<open>rx_packet_t\<close>: \<open>data\<close> is the array \<open>uint8_t data[MAX_FRAME_SIZE + 1]\<close>. The record
  comes from \<open>malloc\<close>, so its bytes are indeterminate until written; the list holds the
  bytes written so far, from index 0, and is never longer than the array. \<open>len\<close> is a
  \<open>uint8_t\<close>, \<open>rssi\<close> an \<open>int8_t\<close> (read with \<open>sint\<close>).
\<close>

record rx_packet_t =
  data :: "8 word list"
  len :: "8 word"
  rssi :: "8 word"

datatype esp_err_t =
  ESP_OK | ESP_FAIL | ESP_ERR_NVS_NO_FREE_PAGES | ESP_ERR_NVS_NEW_VERSION_FOUND

text \<open>The calls the firmware makes into ESP-IDF and FreeRTOS, with their arguments.\<close>

datatype sys_call =
  nvs_flash_init
| nvs_flash_erase
| uart_param_config nat
| uart_driver_install nat
| esp_ieee802154_enable
| esp_ieee802154_set_channel nat
| esp_ieee802154_set_promiscuous bool
| esp_ieee802154_set_panid "16 word"
| esp_ieee802154_set_short_address "16 word"
| esp_ieee802154_set_rx_when_idle bool
| esp_ieee802154_receive
| esp_ieee802154_receive_handle_done "8 word list"
| esp_ieee802154_transmit string bool
| xQueueCreate nat
| xTaskCreate string nat nat
| portYIELD_FROM_ISR

text \<open>The lines written with \<open>ESP_LOGI\<close>, by content rather than by text.\<close>

datatype log_msg =
  Log_mode_sniff nat
| Log_mode_tx
| Log_command string
| Log_status operation_mode_t nat nat "32 word"
| Log_initialised
| Log_configuration
| Log_baud nat
| Log_channel nat
| Log_queue_size nat

datatype error =
  Abort sys_call esp_err_t
| Buffer_overflow nat nat
| Out_of_bounds_read nat nat
| Null_queue

text \<open>
  A FreeRTOS queue of pointers: the items in arrival order and the capacity given to
  \<open>xQueueCreate\<close>. A pointer to a heap record is its address, a \<open>nat\<close>.
\<close>

record queue_t =
  items :: "nat list"
  capacity :: nat

text \<open>
  The globals \<open>rx_queue\<close> (\<open>NULL\<close> is \<open>None\<close>), \<open>current_mode\<close> and
  \<open>dropped_packets\<close>, the heap of live \<open>rx_packet_t\<close> records, and the two traces.
\<close>

record fw_state =
  rx_queue :: "queue_t option"
  current_mode :: operation_mode_t
  dropped_packets :: "32 word"
  heap :: "nat \<rightharpoonup> rx_packet_t"
  sys_log :: "sys_call list"
  esp_log :: "log_msg list"

text \<open>
  The result of an ESP-IDF call belongs to the environment: \<open>hw\<close> gives it from the calls
  made so far and the call being made.
\<close>

type_synonym hw_t = "sys_call list \<Rightarrow> sys_call \<Rightarrow> esp_err_t"

text \<open>The values of the globals before \<open>app_main\<close> runs (lines 44 to 46).\<close>

definition boot_state :: fw_state where
  "boot_state =
     \<lparr>rx_queue = None, current_mode = MODE_TX, dropped_packets = 0,
      heap = Map.empty, sys_log = [], esp_log = []\<rparr>"

subsection \<open>Calls and logging\<close>

definition call :: "fw_state \<Rightarrow> sys_call \<Rightarrow> fw_state" where
  \<comment> \<open>a call whose result the firmware ignores\<close>
  "call s c = s\<lparr>sys_log := sys_log s @ [c]\<rparr>"

definition ESP_LOGI :: "fw_state \<Rightarrow> log_msg \<Rightarrow> fw_state" where
  "ESP_LOGI s m = s\<lparr>esp_log := esp_log s @ [m]\<rparr>"

definition ESP_ERROR_CHECK :: "hw_t \<Rightarrow> fw_state \<Rightarrow> sys_call \<Rightarrow> error + fw_state" where
  \<comment> \<open>the call is made; any result but \<open>ESP_OK\<close> aborts\<close>
  "ESP_ERROR_CHECK hw s c =
     (case hw (sys_log s) c of
        ESP_OK \<Rightarrow> Inr (call s c)
      | e \<Rightarrow> Inl (Abort c e))"

fun ESP_ERROR_CHECK_seq :: "hw_t \<Rightarrow> fw_state \<Rightarrow> sys_call list \<Rightarrow> error + fw_state" where
  "ESP_ERROR_CHECK_seq hw s [] = Inr s"
| "ESP_ERROR_CHECK_seq hw s (c # cs) =
     (case ESP_ERROR_CHECK hw s c of
        Inl e \<Rightarrow> Inl e
      | Inr s' \<Rightarrow> ESP_ERROR_CHECK_seq hw s' cs)"

subsection \<open>\<open>switch_mode\<close> (lines 83 to 107)\<close>

definition switch_mode :: "hw_t \<Rightarrow> fw_state \<Rightarrow> operation_mode_t \<Rightarrow> error + fw_state" where
  "switch_mode hw s new_mode =
     (if current_mode s = new_mode then Inr s
      else
        let s1 = s\<lparr>current_mode := new_mode\<rparr> in
        if new_mode = MODE_SNIFF then
          (case ESP_ERROR_CHECK_seq hw s1
                  [esp_ieee802154_set_promiscuous True,
                   esp_ieee802154_set_panid 0xFFFF,
                   esp_ieee802154_set_short_address 0xFFFF,
                   esp_ieee802154_set_rx_when_idle True,
                   esp_ieee802154_receive] of
             Inl e \<Rightarrow> Inl e
           | Inr s2 \<Rightarrow> Inr (ESP_LOGI s2 (Log_mode_sniff CHANNEL)))
        else
          (case ESP_ERROR_CHECK_seq hw s1
                  [esp_ieee802154_set_promiscuous False,
                   esp_ieee802154_set_rx_when_idle False] of
             Inl e \<Rightarrow> Inl e
           | Inr s2 \<Rightarrow> Inr (ESP_LOGI s2 Log_mode_tx)))"

subsection \<open>\<open>initialize_nvs\<close> and \<open>app_main\<close> (lines 63 to 72 and 268 to 304)\<close>

definition initialize_nvs :: "hw_t \<Rightarrow> fw_state \<Rightarrow> error + fw_state" where
  "initialize_nvs hw s =
     (let err = hw (sys_log s) nvs_flash_init; s1 = call s nvs_flash_init in
      if err = ESP_ERR_NVS_NO_FREE_PAGES \<or> err = ESP_ERR_NVS_NEW_VERSION_FOUND then
        (case ESP_ERROR_CHECK hw s1 nvs_flash_erase of
           Inl e \<Rightarrow> Inl e
         | Inr s2 \<Rightarrow> ESP_ERROR_CHECK hw s2 nvs_flash_init)
      else if err = ESP_OK then Inr s1
      else Inl (Abort nvs_flash_init err))"

text \<open>
  \<open>xQueueCreate\<close> returns \<open>NULL\<close> when the queue cannot be allocated; \<open>app_main\<close> does
  not look at the result. Here the environment answers \<open>ESP_OK\<close> for a created queue.
\<close>

definition app_main_tasks :: "fw_state \<Rightarrow> fw_state" where
  \<comment> \<open>lines 295 to 303: the two tasks and the configuration lines\<close>
  "app_main_tasks s4 =
     (let s5 = call s4 (xTaskCreate ''uart_rx'' 3072 3);
          s6 = call s5 (xTaskCreate ''uart_tx'' 4096 2);
          s7 = ESP_LOGI s6 Log_initialised;
          s8 = ESP_LOGI s7 Log_configuration;
          s9 = ESP_LOGI s8 (Log_baud UART_BAUD_RATE);
          s10 = ESP_LOGI s9 (Log_channel CHANNEL)
      in ESP_LOGI s10 (Log_queue_size QUEUE_SIZE))"

definition app_main_queue :: "hw_t \<Rightarrow> fw_state \<Rightarrow> fw_state" where
  \<comment> \<open>line 289\<close>
  "app_main_queue hw s2 =
     (let created = (hw (sys_log s2) (xQueueCreate QUEUE_SIZE) = ESP_OK) in
      (call s2 (xQueueCreate QUEUE_SIZE))
        \<lparr>rx_queue := (if created then Some \<lparr>items = [], capacity = QUEUE_SIZE\<rparr>
                      else None)\<rparr>)"

definition app_main :: "hw_t \<Rightarrow> fw_state \<Rightarrow> error + fw_state" where
  "app_main hw s =
     (case initialize_nvs hw s of
        Inl e \<Rightarrow> Inl e
      | Inr s1 \<Rightarrow>
          (case ESP_ERROR_CHECK_seq hw s1
                  [uart_param_config UART_BAUD_RATE,
                   uart_driver_install BUF_SIZE,
                   esp_ieee802154_enable,
                   esp_ieee802154_set_channel CHANNEL] of
             Inl e \<Rightarrow> Inl e
           | Inr s2 \<Rightarrow>
               (case switch_mode hw (app_main_queue hw s2) MODE_SNIFF of
                  Inl e \<Rightarrow> Inl e
                | Inr s4 \<Rightarrow> Inr (app_main_tasks s4))))"

subsection \<open>Library functions used by the firmware\<close>

definition NUL :: char where
  "NUL = CHR 0x00"

definition memcpy :: "'a list \<Rightarrow> nat \<Rightarrow> 'a list \<Rightarrow> nat \<Rightarrow> error + 'a list" where
  \<comment> \<open>\<open>memcpy(dst, src, n)\<close>: \<open>dst\<close> is the written prefix of an array of \<open>dst_size\<close>
      elements, \<open>src\<close> the readable memory at the source pointer\<close>
  "memcpy dst dst_size src n =
     (if dst_size < n then Inl (Buffer_overflow n dst_size)
      else if length src < n then Inl (Out_of_bounds_read n (length src))
      else Inr (take n src @ drop n dst))"

definition xQueueSendFromISR :: "queue_t \<Rightarrow> nat \<Rightarrow> bool \<times> queue_t" where
  \<comment> \<open>FreeRTOS: the item is appended when there is room (\<open>pdTRUE\<close>), otherwise the queue
      is left as it is (\<open>errQUEUE_FULL\<close>)\<close>
  "xQueueSendFromISR q item =
     (if length (items q) < capacity q then (True, q\<lparr>items := items q @ [item]\<rparr>)
      else (False, q))"

definition c_str :: "string \<Rightarrow> string" where
  \<comment> \<open>the C string at a pointer: the characters before the first NUL\<close>
  "c_str p = takeWhile (\<lambda>c. c \<noteq> NUL) p"

fun strncmp :: "string \<Rightarrow> string \<Rightarrow> nat \<Rightarrow> bool" where
  \<comment> \<open>\<open>strncmp(s1, s2, n) == 0\<close> on NUL-terminated memory\<close>
  "strncmp s1 s2 0 = True"
| "strncmp (c1 # s1) (c2 # s2) (Suc n) = (c1 = c2 \<and> (c1 = NUL \<or> strncmp s1 s2 n))"
| "strncmp s1 s2 (Suc n) = False"

fun strstr :: "string \<Rightarrow> string \<Rightarrow> bool" where
  \<comment> \<open>\<open>strstr(haystack, needle) != NULL\<close>, both given as C strings without the NUL\<close>
  "strstr [] needle = (needle = [])"
| "strstr (c # cs) needle = (prefix needle (c # cs) \<or> strstr cs needle)"

subsection \<open>\<open>printf\<close> conversions\<close>

definition digit_char :: "nat \<Rightarrow> char" where
  "digit_char d = ''0123456789ABCDEF'' ! (d mod 16)"

fun dec :: "nat \<Rightarrow> string" where
  "dec n = (if n < 10 then [digit_char n] else dec (n div 10) @ [digit_char (n mod 10)])"

fun hex :: "nat \<Rightarrow> string" where
  "hex n = (if n < 16 then [digit_char n] else hex (n div 16) @ [digit_char (n mod 16)])"

declare dec.simps [simp del]

declare hex.simps [simp del]

definition pad :: "char \<Rightarrow> nat \<Rightarrow> string \<Rightarrow> string" where
  \<comment> \<open>a minimum field width: filled on the left, never cut\<close>
  "pad c w s = replicate (w - length s) c @ s"

definition fmt_lu :: "nat \<Rightarrow> nat \<Rightarrow> string" where
  \<comment> \<open>\<open>%<w>lu\<close>\<close>
  "fmt_lu w n = pad (CHR '' '') w (dec n)"

definition fmt_d :: "nat \<Rightarrow> int \<Rightarrow> string" where
  \<comment> \<open>\<open>%<w>d\<close>\<close>
  "fmt_d w i = pad (CHR '' '') w (if i < 0 then CHR ''-'' # dec (nat (- i)) else dec (nat i))"

definition fmt_02X :: "8 word \<Rightarrow> string" where
  \<comment> \<open>\<open>%02X\<close> of a \<open>uint8_t\<close>\<close>
  "fmt_02X b = pad (CHR ''0'') 2 (hex (unat b))"

definition size_sub :: "nat \<Rightarrow> nat \<Rightarrow> nat" where
  \<comment> \<open>\<open>sizeof(output_buffer) - pos\<close> in \<open>size_t\<close>, 32 bits wide on this target\<close>
  "size_sub a b = nat ((int a - int b) mod 2 ^ 32)"

definition snprintf :: "string \<Rightarrow> nat \<Rightarrow> nat \<Rightarrow> string \<Rightarrow> error + (string \<times> nat)" where
  \<comment> \<open>\<open>snprintf(buf + off, n, ...)\<close> with the formatted text \<open>text\<close>: at most \<open>n - 1\<close>
      characters and a NUL are stored; the result is the length of the whole text\<close>
  "snprintf buf off n text =
     (if n = 0 then Inr (buf, length text)
      else
        let w = take (n - 1) text @ [NUL] in
        if length buf < off + length w then Inl (Buffer_overflow (off + length w) (length buf))
        else Inr (take off buf @ w @ drop (off + length w) buf, length text))"

subsection \<open>\<open>esp_ieee802154_receive_done\<close> (lines 122 to 158)\<close>

definition fill_packet :: "8 word list \<Rightarrow> 8 word \<Rightarrow> error + rx_packet_t" where
  \<comment> \<open>lines 135 to 137; \<open>frame\<close> is the memory readable at the frame pointer\<close>
  "fill_packet frame frame_rssi =
     (case frame of
        [] \<Rightarrow> Inl (Out_of_bounds_read 1 0)
      | f0 # rest \<Rightarrow>
          (case memcpy [] (MAX_FRAME_SIZE + 1) frame (unat (f0 + 1)) of
             Inl e \<Rightarrow> Inl e
           | Inr d \<Rightarrow> Inr \<lparr>data = d, len = f0 + 1, rssi = frame_rssi\<rparr>))"

text \<open>
  The handler. \<open>malloc_result\<close> is what \<open>malloc\<close> returns (\<open>None\<close> for \<open>NULL\<close>), and
  \<open>task_waiting\<close> says whether a task of higher priority waits on the queue, which is
  what \<open>xQueueSendFromISR\<close> stores in \<open>xHigherPriorityTaskWoken\<close> when it has enqueued.
\<close>

definition esp_ieee802154_receive_done ::
  "fw_state \<Rightarrow> 8 word list \<Rightarrow> 8 word \<Rightarrow> nat option \<Rightarrow> bool \<Rightarrow> error + fw_state" where
  "esp_ieee802154_receive_done s frame frame_rssi malloc_result task_waiting =
     (if current_mode s \<noteq> MODE_SNIFF then Inr s
      else
        (case malloc_result of
           None \<Rightarrow>
             Inr (call (s\<lparr>dropped_packets := dropped_packets s + 1\<rparr>) esp_ieee802154_receive)
         | Some packet \<Rightarrow>
             (case fill_packet frame frame_rssi of
                Inl e \<Rightarrow> Inl e
              | Inr r \<Rightarrow>
                  (case rx_queue s of
                     None \<Rightarrow> Inl Null_queue
                   | Some q \<Rightarrow>
                       (let s1 = s\<lparr>heap := (heap s)(packet \<mapsto> r)\<rparr>;
                            sent = fst (xQueueSendFromISR q packet);
                            s2 = (if sent
                                  then s1\<lparr>rx_queue := Some (snd (xQueueSendFromISR q packet))\<rparr>
                                  else s1\<lparr>heap := (heap s1)(packet := None),
                                          dropped_packets := dropped_packets s1 + 1\<rparr>);
                            s3 = call (call s2 (esp_ieee802154_receive_handle_done frame))
                                   esp_ieee802154_receive
                        in Inr (if sent \<and> task_waiting then call s3 portYIELD_FROM_ISR
                                else s3))))))"

text \<open>One invocation of the handler with everything the environment supplies to it.\<close>

datatype rx_event = Rx_frame "8 word list" "8 word" "nat option" bool

fun rx_step :: "fw_state \<Rightarrow> rx_event \<Rightarrow> error + fw_state" where
  "rx_step s (Rx_frame frame frame_rssi malloc_result task_waiting) =
     esp_ieee802154_receive_done s frame frame_rssi malloc_result task_waiting"

fun rx_run :: "fw_state \<Rightarrow> rx_event list \<Rightarrow> error + fw_state" where
  "rx_run s [] = Inr s"
| "rx_run s (ev # evs) =
     (case rx_step s ev of
        Inl e \<Rightarrow> Inl e
      | Inr s' \<Rightarrow> rx_run s' evs)"

definition calls_made :: "fw_state \<Rightarrow> error + fw_state \<Rightarrow> sys_call list" where
  \<comment> \<open>the calls a step has added to the trace\<close>
  "calls_made s r =
     (case r of
        Inl e \<Rightarrow> []
      | Inr s' \<Rightarrow> drop (length (sys_log s)) (sys_log s'))"

subsection \<open>\<open>uart_send_task\<close>: rendering one record (lines 188 to 206)\<close>

definition OUTPUT_BUFFER_SIZE :: nat where
  "OUTPUT_BUFFER_SIZE = MAX_FRAME_SIZE * 3 + 50"

definition CRLF :: string where
  "CRLF = [CHR 0x0D, CHR 0x0A]"

definition header :: "32 word \<Rightarrow> rx_packet_t \<Rightarrow> string" where
  \<comment> \<open>the text of \<open>"[%6lu|RSSI:%4ddB|%3dB] "\<close> with the three arguments of line 190 to 192\<close>
  "header tick packet =
     ''['' @ fmt_lu 6 (unat tick mod 1000000) @ ''|RSSI:'' @ fmt_d 4 (sint (rssi packet))
       @ ''dB|'' @ fmt_d 3 (int (unat (len packet)) - 1) @ ''B] ''"

function hex_loop :: "rx_packet_t \<Rightarrow> nat \<Rightarrow> string \<Rightarrow> nat \<Rightarrow> error + (string \<times> nat)" where
  "hex_loop packet i buf pos =
     (if i < unat (len packet) then
        (if i < MAX_FRAME_SIZE + 1 \<and> i < length (data packet) then
           (case snprintf buf pos (size_sub OUTPUT_BUFFER_SIZE pos) (fmt_02X (data packet ! i)) of
              Inl e \<Rightarrow> Inl e
            | Inr (buf', n) \<Rightarrow> hex_loop packet (i + 1) buf' (pos + n))
         else Inl (Out_of_bounds_read i (length (data packet))))
      else Inr (buf, pos))"
  by pat_completeness auto
termination
  by (relation "measure (\<lambda>(packet, i, buf, pos). unat (len packet) - i)") auto

declare hex_loop.simps [simp del]

text \<open>
  The result is the bytes given to \<open>uart_write_bytes\<close> and the buffer afterwards
  (\<open>output_buffer\<close> is static and keeps its content between iterations).
\<close>

definition uart_send_task_render ::
  "string \<Rightarrow> 32 word \<Rightarrow> rx_packet_t \<Rightarrow> error + (string \<times> string)" where
  "uart_send_task_render output_buffer tick packet =
     (case snprintf output_buffer 0 OUTPUT_BUFFER_SIZE (header tick packet) of
        Inl e \<Rightarrow> Inl e
      | Inr (b1, pos1) \<Rightarrow>
          (case hex_loop packet 1 b1 pos1 of
             Inl e \<Rightarrow> Inl e
           | Inr (b2, pos2) \<Rightarrow>
               (case snprintf b2 pos2 (size_sub OUTPUT_BUFFER_SIZE pos2) CRLF of
                  Inl e \<Rightarrow> Inl e
                | Inr (b3, n) \<Rightarrow>
                    (if pos2 + n \<le> length b3 then Inr (take (pos2 + n) b3, b3)
                     else Inl (Out_of_bounds_read (pos2 + n) (length b3))))))"

subsection \<open>\<open>uart_receive_task\<close>: one iteration (lines 227 to 254)\<close>

definition uart_read_bytes :: "string \<Rightarrow> nat \<Rightarrow> string" where
  \<comment> \<open>at most \<open>n\<close> of the bytes that have arrived\<close>
  "uart_read_bytes arrived n = take n arrived"

definition handle_command :: "hw_t \<Rightarrow> fw_state \<Rightarrow> string \<Rightarrow> error + fw_state" where
  \<comment> \<open>lines 233 to 245; \<open>cmd\<close> is the C string after the prefix\<close>
  "handle_command hw s cmd =
     (let s1 = ESP_LOGI s (Log_command cmd) in
      if strstr cmd ''MODE_SNIFF'' then switch_mode hw s1 MODE_SNIFF
      else if strstr cmd ''MODE_TX'' then switch_mode hw s1 MODE_TX
      else if strstr cmd ''STATUS'' then
        (case rx_queue s1 of
           None \<Rightarrow> Inl Null_queue
         | Some q \<Rightarrow>
             Inr (ESP_LOGI s1
                   (Log_status (current_mode s1) (length (items q)) QUEUE_SIZE
                      (dropped_packets s1))))
      else Inr s1)"

definition uart_receive_task_iter :: "hw_t \<Rightarrow> fw_state \<Rightarrow> string \<Rightarrow> error + fw_state" where
  "uart_receive_task_iter hw s arrived =
     (let rx = uart_read_bytes arrived (BUF_SIZE - 1) in
      if 0 < length rx then
        (let uart_data_buffer = rx @ [NUL] in
         if strncmp uart_data_buffer (CMD_PREFIX @ [NUL]) CMD_PREFIX_LEN then
           handle_command hw s (c_str (drop CMD_PREFIX_LEN uart_data_buffer))
         else if current_mode s = MODE_TX then
           (case memcpy [] (MAX_FRAME_SIZE + 1) uart_data_buffer (length rx) of
              Inl e \<Rightarrow> Inl e
            | Inr tx_frame \<Rightarrow> Inr (call s (esp_ieee802154_transmit tx_frame False)))
         else Inr s)
      else Inr s)"

subsection \<open>Well-formed inputs\<close>

text \<open>
  A frame as the PHY delivers it: the first byte is the length of what follows, at most
  \<open>MAX_FRAME_SIZE\<close>, and that many bytes are readable after it.
\<close>

definition valid_frame :: "8 word list \<Rightarrow> bool" where
  "valid_frame frame =
     (case frame of
        [] \<Rightarrow> False
      | f0 # rest \<Rightarrow> unat f0 \<le> MAX_FRAME_SIZE \<and> unat f0 \<le> length rest)"

text \<open>
  What holds of the queue and the heap between two invocations of the handler: the queue
  exists with the capacity of line 289, holds at most that many pointers, no pointer twice,
  and every queued pointer is a live record.
\<close>

definition queue_inv :: "fw_state \<Rightarrow> bool" where
  "queue_inv s =
     (case rx_queue s of
        None \<Rightarrow> False
      | Some q \<Rightarrow>
          capacity q = QUEUE_SIZE \<and> length (items q) \<le> QUEUE_SIZE \<and> distinct (items q) \<and>
          list_all (\<lambda>p. heap s p \<noteq> None) (items q))"

text \<open>
  A sequence of invocations the environment can produce: every frame is well formed and
  every address \<open>malloc\<close> returns is not in use at that moment.
\<close>

fun rx_events_ok :: "fw_state \<Rightarrow> rx_event list \<Rightarrow> bool" where
  "rx_events_ok s [] = True"
| "rx_events_ok s (Rx_frame frame frame_rssi malloc_result task_waiting # evs) =
     (valid_frame frame \<and>
      (case malloc_result of None \<Rightarrow> True | Some p \<Rightarrow> heap s p = None) \<and>
      (case esp_ieee802154_receive_done s frame frame_rssi malloc_result task_waiting of
         Inl e \<Rightarrow> True
       | Inr s' \<Rightarrow> rx_events_ok s' evs))"

subsection \<open>The firmware after start-up\<close>

text \<open>
  Once \<open>app_main\<close> has returned, the state changes when the radio delivers a frame
  and when the serial input task reads a chunk. (The relay task takes records from the
  queue and frees them; it does not touch \<open>current_mode\<close>.) A mode command is a chunk
  that begins with the prefix and has \<open>MODE_SNIFF\<close> or \<open>MODE_TX\<close> in the text
  after it.
\<close>

definition mode_command :: "string \<Rightarrow> bool" where
  "mode_command arrived =
     (let chunk = uart_read_bytes arrived (BUF_SIZE - 1);
          rest = c_str (drop CMD_PREFIX_LEN chunk)
      in prefix CMD_PREFIX chunk \<and> (sublist ''MODE_SNIFF'' rest \<or> sublist ''MODE_TX'' rest))"

datatype event =
  Frame_received "8 word list" "8 word" "nat option" bool
| Uart_received string

fun no_mode_command :: "event \<Rightarrow> bool" where
  "no_mode_command (Frame_received frame frame_rssi malloc_result task_waiting) = True"
| "no_mode_command (Uart_received arrived) = (if mode_command arrived then False else True)"

fun step :: "hw_t \<Rightarrow> fw_state \<Rightarrow> event \<Rightarrow> error + fw_state" where
  "step hw s (Frame_received frame frame_rssi malloc_result task_waiting) =
     esp_ieee802154_receive_done s frame frame_rssi malloc_result task_waiting"
| "step hw s (Uart_received arrived) = uart_receive_task_iter hw s arrived"

fun run :: "hw_t \<Rightarrow> fw_state \<Rightarrow> event list \<Rightarrow> error + fw_state" where
  "run hw s [] = Inr s"
| "run hw s (ev # evs) =
     (case step hw s ev of
        Inl e \<Rightarrow> Inl e
      | Inr s' \<Rightarrow> run hw s' evs)"

section \<open>Properties\<close>

subsection \<open>Mode switching and start-up\<close>

lemma ESP_ERROR_CHECK_ok:
  "hw (sys_log s) c = ESP_OK \<Longrightarrow> ESP_ERROR_CHECK hw s c = Inr (call s c)"
  by (simp add: ESP_ERROR_CHECK_def)

lemma switch_mode_same: "switch_mode hw s (current_mode s) = Inr s"
  by (simp add: switch_mode_def)

lemma switch_mode_sniff:
  assumes "\<forall>l c. hw l c = ESP_OK" and "current_mode s \<noteq> MODE_SNIFF"
  shows "switch_mode hw s MODE_SNIFF =
           Inr (s\<lparr>current_mode := MODE_SNIFF,
                  sys_log := sys_log s @
                    [esp_ieee802154_set_promiscuous True,
                     esp_ieee802154_set_panid 0xFFFF,
                     esp_ieee802154_set_short_address 0xFFFF,
                     esp_ieee802154_set_rx_when_idle True,
                     esp_ieee802154_receive],
                  esp_log := esp_log s @ [Log_mode_sniff CHANNEL]\<rparr>)"
  using assms by (simp add: switch_mode_def ESP_ERROR_CHECK_ok call_def ESP_LOGI_def)

lemma switch_mode_tx:
  assumes "\<forall>l c. hw l c = ESP_OK" and "current_mode s \<noteq> MODE_TX"
  shows "switch_mode hw s MODE_TX =
           Inr (s\<lparr>current_mode := MODE_TX,
                  sys_log := sys_log s @
                    [esp_ieee802154_set_promiscuous False,
                     esp_ieee802154_set_rx_when_idle False],
                  esp_log := esp_log s @ [Log_mode_tx]\<rparr>)"
  using assms by (simp add: switch_mode_def ESP_ERROR_CHECK_ok call_def ESP_LOGI_def)

lemma ESP_ERROR_CHECK_mode:
  "ESP_ERROR_CHECK hw t c = Inr t' \<Longrightarrow> current_mode t' = current_mode t"
  by (cases "hw (sys_log t) c") (auto simp: ESP_ERROR_CHECK_def call_def)

lemma ESP_ERROR_CHECK_seq_mode:
  "ESP_ERROR_CHECK_seq hw t cs = Inr t' \<Longrightarrow> current_mode t' = current_mode t"
proof (induction cs arbitrary: t)
  case Nil
  then show ?case by simp
next
  case (Cons c cs)
  then show ?case
    by (auto split: sum.splits dest: ESP_ERROR_CHECK_mode)
qed

lemma switch_mode_result_mode:
  assumes "switch_mode hw s m = Inr s'"
  shows "current_mode s' = m"
proof (cases "current_mode s = m")
  case True
  with assms show ?thesis by (simp add: switch_mode_def)
next
  case False
  show ?thesis
  proof (cases m)
    case MODE_SNIFF
    with False assms obtain s2 where
      seq: "ESP_ERROR_CHECK_seq hw (s\<lparr>current_mode := MODE_SNIFF\<rparr>)
         [esp_ieee802154_set_promiscuous True, esp_ieee802154_set_panid 0xFFFF,
          esp_ieee802154_set_short_address 0xFFFF, esp_ieee802154_set_rx_when_idle True,
          esp_ieee802154_receive] = Inr s2"
      and s': "s' = ESP_LOGI s2 (Log_mode_sniff CHANNEL)"
      by (auto simp add: switch_mode_def simp del: ESP_ERROR_CHECK_seq.simps split: sum.splits)
    have "current_mode s2 = MODE_SNIFF"
      using ESP_ERROR_CHECK_seq_mode [OF seq] by simp
    then show ?thesis
      using MODE_SNIFF s' by (simp add: ESP_LOGI_def)
  next
    case MODE_TX
    with False assms obtain s2 where
      seq: "ESP_ERROR_CHECK_seq hw (s\<lparr>current_mode := MODE_TX\<rparr>)
         [esp_ieee802154_set_promiscuous False, esp_ieee802154_set_rx_when_idle False] = Inr s2"
      and s': "s' = ESP_LOGI s2 Log_mode_tx"
      by (auto simp add: switch_mode_def simp del: ESP_ERROR_CHECK_seq.simps split: sum.splits)
    have "current_mode s2 = MODE_TX"
      using ESP_ERROR_CHECK_seq_mode [OF seq] by simp
    then show ?thesis
      using MODE_TX s' by (simp add: ESP_LOGI_def)
  qed
qed

text \<open>
  C7. \<open>switch_mode\<close> with the mode that is already active returns the state as it is:
  no call is made and \<open>current_mode\<close> keeps its value. With the other mode, and
  every configuration call answering \<open>ESP_OK\<close>, exactly the calls of that mode are
  appended to the trace, once and in order: for \<open>MODE_SNIFF\<close> promiscuous on, PAN id
  and short address \<open>0xFFFF\<close>, rx-when-idle on, receive; for \<open>MODE_TX\<close>
  promiscuous off, rx-when-idle off.
\<close>

theorem switch_mode_idempotent:
  "switch_mode hw s (current_mode s) = Inr s \<and>
   ((\<forall>l c. hw l c = ESP_OK) \<and> new_mode \<noteq> current_mode s \<longrightarrow>
      switch_mode hw s new_mode =
        Inr (s\<lparr>current_mode := new_mode,
               sys_log := sys_log s @
                 (case new_mode of
                    MODE_SNIFF \<Rightarrow>
                      [esp_ieee802154_set_promiscuous True,
                       esp_ieee802154_set_panid 0xFFFF,
                       esp_ieee802154_set_short_address 0xFFFF,
                       esp_ieee802154_set_rx_when_idle True,
                       esp_ieee802154_receive]
                  | MODE_TX \<Rightarrow>
                      [esp_ieee802154_set_promiscuous False,
                       esp_ieee802154_set_rx_when_idle False]),
               esp_log := esp_log s @
                 [case new_mode of MODE_SNIFF \<Rightarrow> Log_mode_sniff CHANNEL | MODE_TX \<Rightarrow> Log_mode_tx]\<rparr>))"
proof (cases new_mode)
  case MODE_SNIFF
  then show ?thesis using switch_mode_sniff [of hw s] by (auto simp: switch_mode_same)
next
  case MODE_TX
  then show ?thesis using switch_mode_tx [of hw s] by (auto simp: switch_mode_same)
qed

theorem switch_mode_idempotent_witness:
  "switch_mode (\<lambda>l c. ESP_OK) boot_state MODE_TX = Inr boot_state \<and>
   switch_mode (\<lambda>l c. ESP_OK) boot_state MODE_SNIFF =
     Inr (boot_state\<lparr>current_mode := MODE_SNIFF,
            sys_log := [esp_ieee802154_set_promiscuous True,
                        esp_ieee802154_set_panid 0xFFFF,
                        esp_ieee802154_set_short_address 0xFFFF,
                        esp_ieee802154_set_rx_when_idle True,
                        esp_ieee802154_receive],
            esp_log := [Log_mode_sniff 13]\<rparr>)"
  using switch_mode_idempotent [of "\<lambda>l c. ESP_OK" boot_state MODE_SNIFF]
  by (simp add: boot_state_def CHANNEL_def)

subsection \<open>The serial input task: frames to transmit\<close>

lemma strncmp_prefix:
  "NUL \<notin> set p \<Longrightarrow> strncmp (xs @ [NUL]) (p @ [NUL]) (length p) = prefix p xs"
proof (induction p arbitrary: xs)
  case Nil
  then show ?case by simp
next
  case (Cons a p)
  then show ?case by (cases xs) auto
qed

lemma is_command:
  "strncmp (rx @ [NUL]) (CMD_PREFIX @ [NUL]) CMD_PREFIX_LEN = prefix CMD_PREFIX rx"
proof -
  have n: "NUL \<notin> set CMD_PREFIX"
    by (simp add: CMD_PREFIX_def NUL_def)
  have l: "CMD_PREFIX_LEN = length CMD_PREFIX"
    by (simp add: CMD_PREFIX_def CMD_PREFIX_LEN_def)
  show ?thesis
    unfolding l by (rule strncmp_prefix [OF n])
qed

lemma uart_receive_task_iter_frame:
  assumes "current_mode s = MODE_TX" and "rx \<noteq> []" and "length rx \<le> BUF_SIZE - 1"
    and "\<not> prefix CMD_PREFIX rx"
  shows "uart_receive_task_iter hw s rx =
           (if length rx \<le> MAX_FRAME_SIZE + 1
            then Inr (call s (esp_ieee802154_transmit rx False))
            else Inl (Buffer_overflow (length rx) (MAX_FRAME_SIZE + 1)))"
  using assms
  by (simp add: uart_receive_task_iter_def uart_read_bytes_def is_command memcpy_def)

text \<open>
  C2. A chunk of 200 bytes that is not a command, received in \<open>MODE_TX\<close>: line 250
  copies all 200 bytes into the 128-byte array \<open>tx_frame\<close>. Nothing truncates the
  chunk.
\<close>

theorem uart_receive_task_overflow:
  "uart_receive_task_iter (\<lambda>l c. ESP_OK) boot_state (replicate 200 (CHR ''A''))
     = Inl (Buffer_overflow 200 128)"
proof -
  have "\<not> prefix CMD_PREFIX (replicate 200 (CHR ''A''))"
    by (simp add: CMD_PREFIX_def prefix_Cons numeral_eq_Suc)
  moreover have "current_mode boot_state = MODE_TX"
    by (simp add: boot_state_def)
  ultimately show ?thesis
    by (simp add: uart_receive_task_iter_frame BUF_SIZE_def MAX_FRAME_SIZE_def)
qed

subsection \<open>The radio callback\<close>

text \<open>The four ways through the handler, for a well-formed frame.\<close>

lemma unat_len_byte: "unat (f0 :: 8 word) \<le> 127 \<Longrightarrow> unat (f0 + 1) = unat f0 + 1"
  by (simp add: unat_word_ariths)

lemma fill_packet_valid:
  assumes "valid_frame frame"
  shows "fill_packet frame r =
           Inr \<lparr>data = take (unat (hd frame) + 1) frame, len = hd frame + 1, rssi = r\<rparr>"
  using assms
  by (cases frame)
     (auto simp: valid_frame_def fill_packet_def memcpy_def MAX_FRAME_SIZE_def unat_len_byte)

lemma receive_done_gated:
  "current_mode s \<noteq> MODE_SNIFF \<Longrightarrow> esp_ieee802154_receive_done s frame r m w = Inr s"
  by (simp add: esp_ieee802154_receive_done_def)

lemma receive_done_alloc_failed:
  "current_mode s = MODE_SNIFF \<Longrightarrow>
   esp_ieee802154_receive_done s frame r None w =
     Inr (call (s\<lparr>dropped_packets := dropped_packets s + 1\<rparr>) esp_ieee802154_receive)"
  by (simp add: esp_ieee802154_receive_done_def)

lemma receive_done_enqueued:
  assumes "current_mode s = MODE_SNIFF" and "valid_frame frame" and "rx_queue s = Some q"
    and "length (items q) < capacity q"
  shows "esp_ieee802154_receive_done s frame r (Some p) w =
           Inr (s\<lparr>rx_queue := Some (q\<lparr>items := items q @ [p]\<rparr>),
                  heap := (heap s)(p \<mapsto>
                    \<lparr>data = take (unat (hd frame) + 1) frame, len = hd frame + 1, rssi = r\<rparr>),
                  sys_log := sys_log s @
                    [esp_ieee802154_receive_handle_done frame, esp_ieee802154_receive] @
                    (if w then [portYIELD_FROM_ISR] else [])\<rparr>)"
  using assms
  by (simp add: esp_ieee802154_receive_done_def fill_packet_valid xQueueSendFromISR_def call_def)

lemma receive_done_queue_full:
  assumes "current_mode s = MODE_SNIFF" and "valid_frame frame" and "rx_queue s = Some q"
    and "\<not> length (items q) < capacity q"
  shows "esp_ieee802154_receive_done s frame r (Some p) w =
           Inr (s\<lparr>heap := (heap s)(p := None),
                  dropped_packets := dropped_packets s + 1,
                  sys_log := sys_log s @
                    [esp_ieee802154_receive_handle_done frame, esp_ieee802154_receive]\<rparr>)"
  using assms
  by (simp add: esp_ieee802154_receive_done_def fill_packet_valid xQueueSendFromISR_def call_def)

text \<open>
  C1, as the claim states it, fails: in \<open>MODE_TX\<close> the handler returns at line 123
  and reception is not re-armed.
\<close>

theorem receive_done_counterexample:
  "count_list
     (calls_made boot_state (esp_ieee802154_receive_done boot_state [1, 0xAB] 0 None False))
     esp_ieee802154_receive \<noteq> 1"
  by (simp add: esp_ieee802154_receive_done_def boot_state_def calls_made_def)

text \<open>
  C1, amended. Outside \<open>MODE_SNIFF\<close> the handler returns the state as it is, with no
  radio call. In \<open>MODE_SNIFF\<close>, when \<open>malloc\<close> fails, reception is re-armed
  exactly once. In \<open>MODE_SNIFF\<close>, when \<open>malloc\<close> succeeds, the handler calls
  \<open>esp_ieee802154_receive_handle_done\<close> once and then \<open>esp_ieee802154_receive\<close>
  once, whether the enqueue succeeds or fails, followed only by the yield request when a
  waiting task was woken.
\<close>

theorem receive_done_radio_calls:
  "(current_mode s \<noteq> MODE_SNIFF \<longrightarrow>
      esp_ieee802154_receive_done s frame r m w = Inr s) \<and>
   (current_mode s = MODE_SNIFF \<longrightarrow>
      count_list (calls_made s (esp_ieee802154_receive_done s frame r None w))
        esp_ieee802154_receive = 1) \<and>
   (current_mode s = MODE_SNIFF \<and> valid_frame frame \<and> rx_queue s = Some q \<longrightarrow>
      (\<exists>s'. esp_ieee802154_receive_done s frame r (Some p) w = Inr s' \<and>
            sys_log s' = sys_log s @
              [esp_ieee802154_receive_handle_done frame, esp_ieee802154_receive] @
              (if length (items q) < capacity q \<and> w then [portYIELD_FROM_ISR] else [])))"
proof (intro conjI impI)
  assume "current_mode s \<noteq> MODE_SNIFF"
  then show "esp_ieee802154_receive_done s frame r m w = Inr s"
    by (rule receive_done_gated)
next
  assume "current_mode s = MODE_SNIFF"
  then show "count_list (calls_made s (esp_ieee802154_receive_done s frame r None w))
        esp_ieee802154_receive = 1"
    by (simp add: receive_done_alloc_failed calls_made_def call_def)
next
  assume a: "current_mode s = MODE_SNIFF \<and> valid_frame frame \<and> rx_queue s = Some q"
  show "\<exists>s'. esp_ieee802154_receive_done s frame r (Some p) w = Inr s' \<and>
            sys_log s' = sys_log s @
              [esp_ieee802154_receive_handle_done frame, esp_ieee802154_receive] @
              (if length (items q) < capacity q \<and> w then [portYIELD_FROM_ISR] else [])"
  proof (cases "length (items q) < capacity q")
    case True
    with a show ?thesis by (simp add: receive_done_enqueued)
  next
    case False
    with a show ?thesis by (simp add: receive_done_queue_full)
  qed
qed

theorem receive_done_radio_calls_witness:
  "\<exists>s'. esp_ieee802154_receive_done
          (boot_state\<lparr>rx_queue := Some \<lparr>items = [], capacity = QUEUE_SIZE\<rparr>,
                        current_mode := MODE_SNIFF\<rparr>) [1, 0xAB] 0 (Some 0) False = Inr s' \<and>
        sys_log s' = [esp_ieee802154_receive_handle_done [1, 0xAB], esp_ieee802154_receive]"
  using receive_done_radio_calls
          [of "boot_state\<lparr>rx_queue := Some \<lparr>items = [], capacity = QUEUE_SIZE\<rparr>,
                             current_mode := MODE_SNIFF\<rparr>" "[1, 0xAB]" 0 None False
              "\<lparr>items = [], capacity = QUEUE_SIZE\<rparr>" 0]
  by (simp add: boot_state_def valid_frame_def MAX_FRAME_SIZE_def QUEUE_SIZE_def)

text \<open>
  C3, as the claim states it, fails: a frame whose first byte is 200 makes line 137 copy
  201 bytes into the 128-byte array \<open>data\<close>.
\<close>

theorem receive_done_copy_counterexample:
  "esp_ieee802154_receive_done
     (boot_state\<lparr>rx_queue := Some \<lparr>items = [], capacity = QUEUE_SIZE\<rparr>,
                   current_mode := MODE_SNIFF\<rparr>) (200 # replicate 200 0) 0 (Some 0) False
     = Inl (Buffer_overflow 201 128)"
  by (simp add: esp_ieee802154_receive_done_def boot_state_def fill_packet_def memcpy_def
        MAX_FRAME_SIZE_def)

lemma valid_frame_len:
  "valid_frame frame \<Longrightarrow>
     unat (hd frame + 1) = unat (hd frame) + 1 \<and> unat (hd frame) + 1 \<le> MAX_FRAME_SIZE + 1 \<and>
     unat (hd frame) + 1 \<le> length frame"
  by (cases frame) (auto simp: valid_frame_def MAX_FRAME_SIZE_def unat_len_byte)

text \<open>
  C3, amended. For a frame whose length byte is at most 127, lines 135 to 137 copy the
  length byte and the bytes it announces, at most 128 bytes in all, which is the capacity
  of \<open>data\<close>; the record keeps that count in \<open>len\<close> and the signal strength in
  \<open>rssi\<close>, and this is the record the handler enqueues.
\<close>

theorem receive_done_copy_bounded:
  assumes "valid_frame frame"
  shows "fill_packet frame r =
           Inr \<lparr>data = take (unat (hd frame) + 1) frame, len = hd frame + 1, rssi = r\<rparr> \<and>
         length (take (unat (hd frame) + 1) frame) = unat (hd frame) + 1 \<and>
         unat (hd frame) + 1 \<le> MAX_FRAME_SIZE + 1 \<and>
         (current_mode s = MODE_SNIFF \<and> rx_queue s = Some q \<and> length (items q) < capacity q
            \<longrightarrow> (\<exists>s'. esp_ieee802154_receive_done s frame r (Some p) w = Inr s' \<and>
                      heap s' p = Some \<lparr>data = take (unat (hd frame) + 1) frame,
                                         len = hd frame + 1, rssi = r\<rparr>))"
  using assms valid_frame_len [OF assms]
  by (auto simp: fill_packet_valid receive_done_enqueued)

theorem receive_done_copy_bounded_witness:
  "fill_packet [2, 0xAB, 0xCD] 7 = Inr \<lparr>data = [2, 0xAB, 0xCD], len = 3, rssi = 7\<rparr>"
proof -
  have v: "valid_frame [2, 0xAB, 0xCD]"
    by (simp add: valid_frame_def MAX_FRAME_SIZE_def)
  from receive_done_copy_bounded [OF v, of 7] show ?thesis
    by simp
qed

subsection \<open>The queue, the heap and the drop counter\<close>

lemma receive_done_inv:
  assumes "queue_inv s" and "valid_frame frame"
    and "case m of None \<Rightarrow> True | Some p \<Rightarrow> heap s p = None"
  shows "\<exists>s'. esp_ieee802154_receive_done s frame r m w = Inr s' \<and> queue_inv s' \<and>
              current_mode s' = current_mode s"
proof (cases "current_mode s = MODE_SNIFF")
  case False
  with assms show ?thesis by (simp add: receive_done_gated)
next
  case sniff: True
  from assms(1) obtain q where q: "rx_queue s = Some q" "capacity q = QUEUE_SIZE"
    "length (items q) \<le> QUEUE_SIZE" "distinct (items q)"
    "list_all (\<lambda>p. heap s p \<noteq> None) (items q)"
    by (auto simp: queue_inv_def split: option.splits)
  show ?thesis
  proof (cases m)
    case None
    with sniff q show ?thesis
      by (simp add: receive_done_alloc_failed queue_inv_def call_def)
  next
    case (Some p)
    with assms(3) have fresh: "heap s p = None" by simp
    with q(5) have notin: "p \<notin> set (items q)"
      by (auto simp: list_all_iff)
    show ?thesis
    proof (cases "length (items q) < capacity q")
      case True
      with sniff assms(2) q notin Some show ?thesis
        by (auto simp: receive_done_enqueued queue_inv_def list_all_iff)
    next
      case False
      with sniff assms(2) q notin Some fresh show ?thesis
        by (auto simp: receive_done_queue_full queue_inv_def list_all_iff)
    qed
  qed
qed

lemma rx_run_inv:
  "queue_inv s \<Longrightarrow> rx_events_ok s evs \<Longrightarrow>
   \<exists>s'. rx_run s evs = Inr s' \<and> queue_inv s' \<and> current_mode s' = current_mode s"
proof (induction evs arbitrary: s)
  case Nil
  then show ?case by simp
next
  case (Cons ev evs)
  obtain f r m w where ev: "ev = Rx_frame f r m w" by (cases ev)
  with Cons.prems have v: "valid_frame f" "case m of None \<Rightarrow> True | Some p \<Rightarrow> heap s p = None"
    by simp_all
  from receive_done_inv [OF Cons.prems(1) v, of r w] obtain s1 where
    s1: "esp_ieee802154_receive_done s f r m w = Inr s1" "queue_inv s1"
        "current_mode s1 = current_mode s"
    by blast
  with Cons.prems ev have "rx_events_ok s1 evs" by simp
  from Cons.IH [OF s1(2) this] s1 ev show ?case by auto
qed

text \<open>
  C6. Start from a state where the queue invariant holds and run any sequence of handler
  invocations with well-formed frames and fresh addresses. Every invocation returns; at the
  end the queue holds at most 40 pointers, each once and each a live record. In the state
  reached (so after any such sequence), one more invocation does this: outside
  \<open>MODE_SNIFF\<close> it changes nothing, so \<open>dropped_packets\<close> keeps its value; when
  \<open>malloc\<close> fails, or when the queue is full, \<open>dropped_packets\<close> grows by one
  (modulo \<open>2^32\<close>) and heap and queue are as before, so the record that could not be
  queued is freed and is not in the queue; when there is room, the pointer is appended, the
  record stays live and \<open>dropped_packets\<close> keeps its value.
\<close>

theorem capture_queue_accounting:
  assumes "queue_inv s" and "rx_events_ok s evs"
  shows "\<exists>s' q'. rx_run s evs = Inr s' \<and> rx_queue s' = Some q' \<and>
           length (items q') \<le> 40 \<and> distinct (items q') \<and>
           list_all (\<lambda>p. heap s' p \<noteq> None) (items q') \<and>
           (\<forall>f r m w. current_mode s' \<noteq> MODE_SNIFF \<longrightarrow>
              esp_ieee802154_receive_done s' f r m w = Inr s') \<and>
           (\<forall>f r w. current_mode s' = MODE_SNIFF \<longrightarrow>
              (\<exists>t. esp_ieee802154_receive_done s' f r None w = Inr t \<and>
                   dropped_packets t = dropped_packets s' + 1 \<and>
                   heap t = heap s' \<and> rx_queue t = rx_queue s')) \<and>
           (\<forall>f r p w. current_mode s' = MODE_SNIFF \<and> valid_frame f \<and> heap s' p = None \<and>
                length (items q') = 40 \<longrightarrow>
              (\<exists>t. esp_ieee802154_receive_done s' f r (Some p) w = Inr t \<and>
                   dropped_packets t = dropped_packets s' + 1 \<and>
                   heap t = heap s' \<and> rx_queue t = rx_queue s')) \<and>
           (\<forall>f r p w. current_mode s' = MODE_SNIFF \<and> valid_frame f \<and> heap s' p = None \<and>
                length (items q') < 40 \<longrightarrow>
              (\<exists>t. esp_ieee802154_receive_done s' f r (Some p) w = Inr t \<and>
                   dropped_packets t = dropped_packets s' \<and>
                   rx_queue t = Some (q'\<lparr>items := items q' @ [p]\<rparr>) \<and>
                   heap t p \<noteq> None \<and> (\<forall>p'. p' \<noteq> p \<longrightarrow> heap t p' = heap s' p')))"
proof -
  from rx_run_inv [OF assms] obtain s' where
    run: "rx_run s evs = Inr s'" and inv: "queue_inv s'"
    by blast
  from inv obtain q' where q': "rx_queue s' = Some q'" "capacity q' = 40"
    "length (items q') \<le> 40" "distinct (items q')"
    "list_all (\<lambda>p. heap s' p \<noteq> None) (items q')"
    by (auto simp: queue_inv_def QUEUE_SIZE_def split: option.splits)
  have gated: "\<forall>f r m w. current_mode s' \<noteq> MODE_SNIFF \<longrightarrow>
              esp_ieee802154_receive_done s' f r m w = Inr s'"
    by (simp add: receive_done_gated)
  have nomem: "\<forall>f r w. current_mode s' = MODE_SNIFF \<longrightarrow>
              (\<exists>t. esp_ieee802154_receive_done s' f r None w = Inr t \<and>
                   dropped_packets t = dropped_packets s' + 1 \<and>
                   heap t = heap s' \<and> rx_queue t = rx_queue s')"
    by (simp add: receive_done_alloc_failed call_def)
  have full: "\<forall>f r p w. current_mode s' = MODE_SNIFF \<and> valid_frame f \<and> heap s' p = None \<and>
                length (items q') = 40 \<longrightarrow>
              (\<exists>t. esp_ieee802154_receive_done s' f r (Some p) w = Inr t \<and>
                   dropped_packets t = dropped_packets s' + 1 \<and>
                   heap t = heap s' \<and> rx_queue t = rx_queue s')"
    using q'(1,2) by (auto simp: receive_done_queue_full)
  have room: "\<forall>f r p w. current_mode s' = MODE_SNIFF \<and> valid_frame f \<and> heap s' p = None \<and>
                length (items q') < 40 \<longrightarrow>
              (\<exists>t. esp_ieee802154_receive_done s' f r (Some p) w = Inr t \<and>
                   dropped_packets t = dropped_packets s' \<and>
                   rx_queue t = Some (q'\<lparr>items := items q' @ [p]\<rparr>) \<and>
                   heap t p \<noteq> None \<and> (\<forall>p'. p' \<noteq> p \<longrightarrow> heap t p' = heap s' p'))"
    using q'(1,2) by (auto simp: receive_done_enqueued)
  from run q'(1,3,4,5) gated nomem full room show ?thesis
    by blast
qed

theorem capture_queue_accounting_witness:
  "(\<exists>s' q'. rx_run
            (boot_state\<lparr>rx_queue := Some \<lparr>items = [], capacity = QUEUE_SIZE\<rparr>,
                          current_mode := MODE_SNIFF\<rparr>)
            [Rx_frame [1, 0xAB] 0 (Some 0) False, Rx_frame [1, 0xCD] 0 None False] = Inr s' \<and>
          rx_queue s' = Some q' \<and> length (items q') \<le> 40) \<and>
   (\<exists>t. esp_ieee802154_receive_done
          \<lparr>rx_queue = Some \<lparr>items = [0..<QUEUE_SIZE], capacity = QUEUE_SIZE\<rparr>,
           current_mode = MODE_SNIFF, dropped_packets = 7,
           heap = (\<lambda>p. if p < QUEUE_SIZE then Some \<lparr>data = [0], len = 1, rssi = 0\<rparr> else None),
           sys_log = [], esp_log = []\<rparr>
          [1, 0xAB] 0 (Some QUEUE_SIZE) False = Inr t \<and>
        dropped_packets t = 8 \<and> heap t QUEUE_SIZE = None \<and>
        rx_queue t = Some \<lparr>items = [0..<QUEUE_SIZE], capacity = QUEUE_SIZE\<rparr>)"
proof -
  let ?s = "boot_state\<lparr>rx_queue := Some \<lparr>items = [], capacity = QUEUE_SIZE\<rparr>,
                          current_mode := MODE_SNIFF\<rparr>"
  let ?evs = "[Rx_frame [1, 0xAB] 0 (Some 0) False, Rx_frame [1, 0xCD] 0 None False]"
  let ?full = "\<lparr>rx_queue = Some \<lparr>items = [0..<QUEUE_SIZE], capacity = QUEUE_SIZE\<rparr>,
           current_mode = MODE_SNIFF, dropped_packets = 7,
           heap = (\<lambda>p. if p < QUEUE_SIZE then Some \<lparr>data = [0], len = 1, rssi = 0\<rparr> else None),
           sys_log = [], esp_log = []\<rparr> :: fw_state"
  have f: "valid_frame [1, 0xAB]" "valid_frame [1, 0xCD]"
    by (simp_all add: valid_frame_def MAX_FRAME_SIZE_def)
  have i: "queue_inv ?s"
    by (simp add: queue_inv_def QUEUE_SIZE_def)
  have "heap ?s 0 = None" "current_mode ?s = MODE_SNIFF"
    "rx_queue ?s = Some \<lparr>items = [], capacity = QUEUE_SIZE\<rparr>"
    by (simp_all add: boot_state_def)
  then have e: "rx_events_ok ?s ?evs"
    using f by (simp add: receive_done_enqueued receive_done_alloc_failed QUEUE_SIZE_def)
  have i': "queue_inv ?full"
    by (simp add: queue_inv_def list_all_iff)
  have e': "rx_events_ok ?full []"
    by simp
  have l: "length [0..<QUEUE_SIZE] = 40"
    by (simp add: QUEUE_SIZE_def)
  from capture_queue_accounting [OF i e] have first:
    "\<exists>s' q'. rx_run ?s ?evs = Inr s' \<and> rx_queue s' = Some q' \<and> length (items q') \<le> 40"
    by blast
  from capture_queue_accounting [OF i' e'] have
    "\<forall>f r p w. current_mode ?full = MODE_SNIFF \<and> valid_frame f \<and> heap ?full p = None \<and>
        length [0..<QUEUE_SIZE] = 40 \<longrightarrow>
      (\<exists>t. esp_ieee802154_receive_done ?full f r (Some p) w = Inr t \<and>
           dropped_packets t = dropped_packets ?full + 1 \<and>
           heap t = heap ?full \<and> rx_queue t = rx_queue ?full)"
    by auto
  then have "\<exists>t. esp_ieee802154_receive_done ?full [1, 0xAB] 0 (Some QUEUE_SIZE) False = Inr t \<and>
           dropped_packets t = dropped_packets ?full + 1 \<and>
           heap t = heap ?full \<and> rx_queue t = rx_queue ?full"
    using f(1) l by simp
  then have "\<exists>t. esp_ieee802154_receive_done ?full [1, 0xAB] 0 (Some QUEUE_SIZE) False = Inr t \<and>
        dropped_packets t = 8 \<and> heap t QUEUE_SIZE = None \<and>
        rx_queue t = Some \<lparr>items = [0..<QUEUE_SIZE], capacity = QUEUE_SIZE\<rparr>"
    by auto
  with first show ?thesis by blast
qed

subsection \<open>Rendering a record\<close>

text \<open>
  The widths of the three header fields are minimum widths. The sequence value is below
  \<open>10^6\<close>, an \<open>int8_t\<close> prints in at most four characters and \<open>len - 1\<close> in at
  most three, so the header always has 26 characters.
\<close>

lemma length_dec_le: "0 < k \<Longrightarrow> n < 10 ^ k \<Longrightarrow> length (dec n) \<le> k"
proof (induction k arbitrary: n)
  case 0
  then show ?case by simp
next
  case (Suc k)
  show ?case
  proof (cases "n < 10")
    case True
    then show ?thesis by (simp add: dec.simps [of n])
  next
    case False
    with Suc.prems have k: "0 < k" by (cases k) auto
    from Suc.prems have "n div 10 < 10 ^ k" by (simp add: less_mult_imp_div_less mult.commute)
    from Suc.IH [OF k this] False show ?thesis by (simp add: dec.simps [of n])
  qed
qed

lemma length_pad: "length (pad c w s) = max w (length s)"
  by (simp add: pad_def)

lemma length_fmt_lu_6: "n < 1000000 \<Longrightarrow> length (fmt_lu 6 n) = 6"
  using length_dec_le [of 6 n] by (simp add: fmt_lu_def length_pad)

lemma length_fmt_d_4:
  assumes "- 128 \<le> i" and "i \<le> 127"
  shows "length (fmt_d 4 i) = 4"
proof -
  have "length (dec (nat (- i))) \<le> 3" "length (dec (nat i)) \<le> 3"
    using assms length_dec_le [of 3 "nat (- i)"] length_dec_le [of 3 "nat i"] by simp_all
  then show ?thesis by (simp add: fmt_d_def length_pad)
qed

lemma length_fmt_d_3:
  assumes "- 1 \<le> i" and "i \<le> 254"
  shows "length (fmt_d 3 i) = 3"
proof (cases "i < 0")
  case True
  with assms have "i = - 1" by simp
  then show ?thesis by (simp add: fmt_d_def length_pad dec.simps)
next
  case False
  with assms length_dec_le [of 3 "nat i"] show ?thesis
    by (simp add: fmt_d_def length_pad)
qed

lemma length_hex_byte: "n < 256 \<Longrightarrow> length (hex n) \<le> 2"
  by (simp add: hex.simps [of n] hex.simps [of "n div 16"] less_mult_imp_div_less)

lemma length_fmt_02X: "length (fmt_02X b) = 2"
proof -
  have "unat b < 256" using unsigned_less [of b, where ?'a = nat] by simp
  then show ?thesis using length_hex_byte [of "unat b"] by (simp add: fmt_02X_def length_pad)
qed

lemma length_header: "length (header tick packet) = 26"
proof -
  have s: "- 128 \<le> sint (rssi packet)" "sint (rssi packet) \<le> 127"
    using sint_ge [of "rssi packet"] sint_lt [of "rssi packet"] by simp_all
  have u: "unat (len packet) < 256"
    using unsigned_less [of "len packet", where ?'a = nat] by simp
  have l: "- 1 \<le> int (unat (len packet)) - 1" "int (unat (len packet)) - 1 \<le> 254"
    using u by linarith+
  show ?thesis
    using length_fmt_d_4 [OF s] length_fmt_d_3 [OF l]
    by (simp add: header_def length_fmt_lu_6)
qed

lemma size_sub_eq: "pos \<le> OUTPUT_BUFFER_SIZE \<Longrightarrow> size_sub OUTPUT_BUFFER_SIZE pos = OUTPUT_BUFFER_SIZE - pos"
  by (simp add: size_sub_def OUTPUT_BUFFER_SIZE_def MAX_FRAME_SIZE_def nat_diff_distrib' of_nat_diff)

lemma snprintf_fits:
  assumes "length buf = N" and "pos + length text < N"
  shows "\<exists>buf'. snprintf buf pos (N - pos) text = Inr (buf', length text) \<and>
               length buf' = N \<and> take (pos + length text) buf' = take pos buf @ text"
  using assms by (simp add: snprintf_def Let_def)


lemma hex_loop_fits:
  assumes "length buf = OUTPUT_BUFFER_SIZE"
    and "unat (len p) \<le> length (data p)" and "unat (len p) \<le> MAX_FRAME_SIZE + 1"
    and "unat (len p) - i = k"
    and "pos + 2 * k < OUTPUT_BUFFER_SIZE"
  shows "\<exists>buf'. hex_loop p i buf pos = Inr (buf', pos + 2 * k) \<and>
               length buf' = OUTPUT_BUFFER_SIZE \<and>
               take (pos + 2 * k) buf' =
                 take pos buf @ concat (map fmt_02X (drop i (take (unat (len p)) (data p))))"
  using assms
proof (induction k arbitrary: i buf pos)
  case 0
  then show ?case by (simp add: hex_loop.simps [of p i])
next
  case (Suc k)
  then have i: "i < unat (len p)" "i < MAX_FRAME_SIZE + 1" "i < length (data p)"
    by simp_all
  have pos: "pos \<le> OUTPUT_BUFFER_SIZE" "pos + length (fmt_02X (data p ! i)) < OUTPUT_BUFFER_SIZE"
    using Suc.prems by (simp_all add: length_fmt_02X)
  from snprintf_fits [OF Suc.prems(1) pos(2)] obtain b1 where
    b1: "snprintf buf pos (OUTPUT_BUFFER_SIZE - pos) (fmt_02X (data p ! i)) = Inr (b1, 2)"
        "length b1 = OUTPUT_BUFFER_SIZE"
        "take (pos + 2) b1 = take pos buf @ fmt_02X (data p ! i)"
    by (auto simp: length_fmt_02X)
  have k: "unat (len p) - (i + 1) = k" "(pos + 2) + 2 * k < OUTPUT_BUFFER_SIZE"
    using Suc.prems by simp_all
  from Suc.IH [OF b1(2) Suc.prems(2,3) k] obtain b2 where
    b2: "hex_loop p (i + 1) b1 (pos + 2) = Inr (b2, pos + 2 + 2 * k)"
        "length b2 = OUTPUT_BUFFER_SIZE"
        "take (pos + 2 + 2 * k) b2 =
           take (pos + 2) b1 @ concat (map fmt_02X (drop (i + 1) (take (unat (len p)) (data p))))"
    by blast
  have d: "drop i (take (unat (len p)) (data p)) =
             data p ! i # drop (i + 1) (take (unat (len p)) (data p))"
    using i Suc.prems(2) by (simp add: Cons_nth_drop_Suc [symmetric])
  have "hex_loop p i buf pos = hex_loop p (i + 1) b1 (pos + 2)"
    using i b1(1) pos(1) by (simp add: hex_loop.simps [of p i] size_sub_eq)
  with b2 b1(3) d show ?case by simp
qed

lemma render_line:
  assumes "length buf = OUTPUT_BUFFER_SIZE"
    and "unat (len p) \<le> length (data p)" and "unat (len p) \<le> MAX_FRAME_SIZE + 1"
  shows "\<exists>buf'. uart_send_task_render buf tick p =
               Inr (header tick p @ concat (map fmt_02X (drop 1 (take (unat (len p)) (data p))))
                      @ CRLF, buf')"
proof -
  let ?k = "unat (len p) - 1"
  let ?hexes = "concat (map fmt_02X (drop 1 (take (unat (len p)) (data p))))"
  have n: "OUTPUT_BUFFER_SIZE = 431"
    by (simp add: OUTPUT_BUFFER_SIZE_def MAX_FRAME_SIZE_def)
  have k: "?k \<le> 127"
    using assms(3) by (simp add: MAX_FRAME_SIZE_def)
  have "0 + length (header tick p) < OUTPUT_BUFFER_SIZE"
    by (simp add: length_header n)
  from snprintf_fits [OF assms(1) this] obtain b1 where
    b1: "snprintf buf 0 OUTPUT_BUFFER_SIZE (header tick p) = Inr (b1, 26)"
        "length b1 = OUTPUT_BUFFER_SIZE" "take 26 b1 = header tick p"
    by (auto simp: length_header)
  have "26 + 2 * ?k < OUTPUT_BUFFER_SIZE"
    using k by (simp add: n)
  from hex_loop_fits [OF b1(2) assms(2,3) refl this] obtain b2 where
    b2: "hex_loop p 1 b1 26 = Inr (b2, 26 + 2 * ?k)" "length b2 = OUTPUT_BUFFER_SIZE"
        "take (26 + 2 * ?k) b2 = take 26 b1 @ ?hexes"
    by blast
  have c: "(26 + 2 * ?k) + length CRLF < OUTPUT_BUFFER_SIZE" "26 + 2 * ?k \<le> OUTPUT_BUFFER_SIZE"
    using k by (simp_all add: n CRLF_def)
  from snprintf_fits [OF b2(2) c(1)] obtain b3 where
    b3: "snprintf b2 (26 + 2 * ?k) (OUTPUT_BUFFER_SIZE - (26 + 2 * ?k)) CRLF = Inr (b3, 2)"
        "length b3 = OUTPUT_BUFFER_SIZE"
        "take (26 + 2 * ?k + 2) b3 = take (26 + 2 * ?k) b2 @ CRLF"
    by (auto simp: CRLF_def)
  have "26 + 2 * ?k + 2 \<le> length b3"
    using k b3(2) by (simp add: n)
  then have "uart_send_task_render buf tick p = Inr (take (26 + 2 * ?k + 2) b3, b3)"
    using b1(1) b2(1) b3(1) c(2) by (simp add: uart_send_task_render_def size_sub_eq)
  with b3(3) b2(3) b1(3) show ?thesis by simp
qed


lemma length_hex_section: "length (concat (map fmt_02X bytes)) = 2 * length bytes"
  by (induction bytes) (simp_all add: length_fmt_02X)

lemma payload_bytes: "drop 1 (take n xs) = take (n - 1) (tl xs)"
  by (simp add: drop_Suc tl_take)

lemma fmt_d_nat: "fmt_d w (int m) = pad (CHR '' '') w (dec m)"
  by (simp add: fmt_d_def)

text \<open>
  C5. The record with \<open>len = 5\<close>, data \<open>04 AA BB CC DD\<close> and \<open>rssi = -42\<close>,
  rendered at a tick count whose value modulo \<open>10^6\<close> is 12345, is written to the
  UART as \<open>[ 12345|RSSI: -42dB|  4B] AABBCCDD\<close> followed by CR LF, whatever the output
  buffer held before.
\<close>

theorem render_example:
  assumes "length output_buffer = OUTPUT_BUFFER_SIZE" and "unat tick mod 1000000 = 12345"
  shows "\<exists>buf'. uart_send_task_render output_buffer tick
                  \<lparr>data = [4, 0xAA, 0xBB, 0xCC, 0xDD], len = 5, rssi = - 42\<rparr> =
               Inr (''[ 12345|RSSI: -42dB|  4B] AABBCCDD'' @ [CHR 0x0D, CHR 0x0A], buf')"
proof -
  let ?p = "\<lparr>data = [4, 0xAA, 0xBB, 0xCC, 0xDD], len = 5, rssi = - 42\<rparr> :: rx_packet_t"
  have e: "fmt_lu 6 12345 = '' 12345''"
    by (simp add: fmt_lu_def pad_def dec.simps digit_char_def)
  have e4: "fmt_d 4 (- 42) = '' -42''"
    by code_simp
  have e3: "fmt_d 3 4 = ''  4''"
    by code_simp
  have h: "header tick ?p = ''[ 12345|RSSI: -42dB|  4B] ''"
    using assms(2) by (simp add: header_def e e4 e3)
  have "concat (map fmt_02X [0xAA, 0xBB, 0xCC, 0xDD]) = ''AABBCCDD''"
    by code_simp
  then have x: "concat (map fmt_02X (drop 1 (take (unat (len ?p)) (data ?p)))) = ''AABBCCDD''"
    by simp
  have "unat (len ?p) \<le> length (data ?p)" "unat (len ?p) \<le> MAX_FRAME_SIZE + 1"
    by (simp_all add: MAX_FRAME_SIZE_def)
  from render_line [OF assms(1) this, of tick] show ?thesis
    unfolding h x by (simp add: CRLF_def)
qed

theorem render_example_witness:
  "\<exists>buf'. uart_send_task_render (replicate OUTPUT_BUFFER_SIZE NUL) 12345
            \<lparr>data = [4, 0xAA, 0xBB, 0xCC, 0xDD], len = 5, rssi = - 42\<rparr> =
          Inr (''[ 12345|RSSI: -42dB|  4B] AABBCCDD'' @ [CHR 0x0D, CHR 0x0A], buf')"
proof -
  have "length (replicate OUTPUT_BUFFER_SIZE NUL) = OUTPUT_BUFFER_SIZE"
    and "unat (12345 :: 32 word) mod 1000000 = 12345"
    by simp_all
  then show ?thesis by (rule render_example)
qed

text \<open>
  C9. A record of the maximum size (\<open>len = 128\<close>, 127 payload bytes) is rendered in
  full: the count field reads \<open>127\<close>, the hex section is the 127 bytes after the length
  byte in 254 characters, and the line of 282 characters with its CR LF is shorter than
  the output buffer.
\<close>

theorem render_max_payload:
  assumes "length output_buffer = OUTPUT_BUFFER_SIZE"
    and "unat (len p) = 128" and "length (data p) = 128"
  shows "\<exists>line buf'. uart_send_task_render output_buffer tick p = Inr (line, buf') \<and>
           line = ''['' @ fmt_lu 6 (unat tick mod 1000000) @ ''|RSSI:'' @ fmt_d 4 (sint (rssi p))
                    @ ''dB|127B] '' @ concat (map fmt_02X (tl (data p))) @ CRLF \<and>
           length (concat (map fmt_02X (tl (data p)))) = 254 \<and>
           length line = 282 \<and> length line < OUTPUT_BUFFER_SIZE"
proof -
  have e: "fmt_d 3 127 = ''127''"
    by code_simp
  have h: "header tick p = ''['' @ fmt_lu 6 (unat tick mod 1000000) @ ''|RSSI:''
             @ fmt_d 4 (sint (rssi p)) @ ''dB|127B] ''"
    using assms(2) by (simp add: header_def e)
  have x: "drop 1 (take (unat (len p)) (data p)) = tl (data p)"
    using assms(2,3) by (simp add: drop_Suc)
  have l: "length (concat (map fmt_02X (tl (data p)))) = 254"
    using assms(3) by (simp add: length_hex_section)
  have "unat (len p) \<le> length (data p)" "unat (len p) \<le> MAX_FRAME_SIZE + 1"
    using assms(2,3) by (simp_all add: MAX_FRAME_SIZE_def)
  from render_line [OF assms(1) this, of tick] obtain buf' where
    r: "uart_send_task_render output_buffer tick p =
          Inr (header tick p @ concat (map fmt_02X (tl (data p))) @ CRLF, buf')"
    unfolding x by blast
  have n: "length (header tick p @ concat (map fmt_02X (tl (data p))) @ CRLF) = 282"
    using l by (simp add: length_header CRLF_def)
  have "(282 :: nat) < OUTPUT_BUFFER_SIZE"
    by (simp add: OUTPUT_BUFFER_SIZE_def MAX_FRAME_SIZE_def)
  with r l n show ?thesis
    unfolding h by simp
qed

theorem render_max_payload_witness:
  "\<exists>line buf'. uart_send_task_render (replicate OUTPUT_BUFFER_SIZE NUL) 0
            \<lparr>data = 127 # replicate 127 0xAB, len = 128, rssi = 0\<rparr> = Inr (line, buf') \<and>
          length line = 282"
proof -
  let ?p = "\<lparr>data = 127 # replicate 127 0xAB, len = 128, rssi = 0\<rparr> :: rx_packet_t"
  have "length (replicate OUTPUT_BUFFER_SIZE NUL) = OUTPUT_BUFFER_SIZE"
    and "unat (len ?p) = 128" and "length (data ?p) = 128"
    by simp_all
  from render_max_payload [OF this, of 0] show ?thesis
    by blast
qed

text \<open>
  Every record the handler builds has its first \<open>len\<close> bytes written and \<open>len\<close>
  within the capacity of \<open>data\<close>.
\<close>

lemma fill_packet_well_formed:
  assumes "fill_packet frame r = Inr p"
  shows "unat (len p) \<le> length (data p) \<and> unat (len p) \<le> MAX_FRAME_SIZE + 1"
  using assms
  by (cases frame) (auto simp: fill_packet_def memcpy_def split: if_splits)

text \<open>
  C10. For a record with \<open>len\<close> between 1 and the capacity of \<open>data\<close>, whose first
  \<open>len\<close> bytes are written, the count field is the decimal text of \<open>len - 1\<close>
  right-justified in three characters, and the hex section is made of the \<open>len - 1\<close>
  bytes after the length byte, two characters each.
\<close>

theorem render_count_matches_hex:
  assumes "length output_buffer = OUTPUT_BUFFER_SIZE"
    and "1 \<le> unat (len p)"
    and "unat (len p) \<le> length (data p)" and "unat (len p) \<le> MAX_FRAME_SIZE + 1"
  shows "\<exists>bytes buf'.
           uart_send_task_render output_buffer tick p =
             Inr (''['' @ fmt_lu 6 (unat tick mod 1000000) @ ''|RSSI:''
                    @ fmt_d 4 (sint (rssi p)) @ ''dB|''
                    @ pad (CHR '' '') 3 (dec (unat (len p) - 1)) @ ''B] ''
                    @ concat (map fmt_02X bytes) @ CRLF, buf') \<and>
           bytes = take (unat (len p) - 1) (tl (data p)) \<and>
           length bytes = unat (len p) - 1 \<and>
           list_all (\<lambda>b. length (fmt_02X b) = 2) bytes \<and>
           length (concat (map fmt_02X bytes)) = 2 * (unat (len p) - 1)"
proof -
  let ?bytes = "take (unat (len p) - 1) (tl (data p))"
  have "int (unat (len p)) - 1 = int (unat (len p) - 1)"
    using assms(2) by linarith
  then have c: "fmt_d 3 (int (unat (len p)) - 1) = pad (CHR '' '') 3 (dec (unat (len p) - 1))"
    by (simp only: fmt_d_nat)
  have n: "length ?bytes = unat (len p) - 1"
    using assms(3) by simp
  from render_line [OF assms(1,3,4), of tick] obtain buf' where
    "uart_send_task_render output_buffer tick p =
       Inr (header tick p @ concat (map fmt_02X ?bytes) @ CRLF, buf')"
    unfolding payload_bytes by blast
  then have "uart_send_task_render output_buffer tick p =
             Inr (''['' @ fmt_lu 6 (unat tick mod 1000000) @ ''|RSSI:''
                    @ fmt_d 4 (sint (rssi p)) @ ''dB|''
                    @ pad (CHR '' '') 3 (dec (unat (len p) - 1)) @ ''B] ''
                    @ concat (map fmt_02X ?bytes) @ CRLF, buf')"
    unfolding header_def c by simp
  moreover have "list_all (\<lambda>b. length (fmt_02X b) = 2) ?bytes"
    by (simp add: list_all_iff length_fmt_02X)
  moreover have "length (concat (map fmt_02X ?bytes)) = 2 * (unat (len p) - 1)"
    using n by (simp add: length_hex_section)
  ultimately show ?thesis using n by blast
qed

theorem render_count_matches_hex_witness:
  "\<exists>bytes buf'. uart_send_task_render (replicate OUTPUT_BUFFER_SIZE NUL) 7
            \<lparr>data = [2, 0x12, 0xEF], len = 3, rssi = - 10\<rparr> =
          Inr (''['' @ fmt_lu 6 7 @ ''|RSSI:'' @ fmt_d 4 (- 10) @ ''dB|''
                 @ pad (CHR '' '') 3 (dec 2) @ ''B] '' @ concat (map fmt_02X bytes) @ CRLF, buf') \<and>
          bytes = [0x12, 0xEF]"
proof -
  let ?p = "\<lparr>data = [2, 0x12, 0xEF], len = 3, rssi = - 10\<rparr> :: rx_packet_t"
  have "length (replicate OUTPUT_BUFFER_SIZE NUL) = OUTPUT_BUFFER_SIZE"
    and "1 \<le> unat (len ?p)" and "unat (len ?p) \<le> length (data ?p)"
    and "unat (len ?p) \<le> MAX_FRAME_SIZE + 1"
    by (simp_all add: MAX_FRAME_SIZE_def)
  from render_count_matches_hex [OF this, of 7] show ?thesis
    by simp
qed

subsection \<open>Commands\<close>

text \<open>
  \<open>strncmp\<close> against the prefix is a prefix test on the chunk, and \<open>strstr\<close> is the
  search for a contiguous sublist. Both read the buffer as a C string, so the text that is
  searched ends at the first NUL byte; a chunk without NUL bytes is searched whole.
\<close>

lemma strstr_sublist: "strstr hay needle = sublist needle hay"
  by (induction hay) (simp_all add: sublist_Cons_right)

lemma c_str_terminated: "c_str (xs @ [NUL]) = c_str xs"
  by (induction xs) (simp_all add: c_str_def)


lemma command_rest:
  assumes "prefix CMD_PREFIX rx"
  shows "c_str (drop CMD_PREFIX_LEN (rx @ [NUL])) = c_str (drop CMD_PREFIX_LEN rx)"
    and "0 < length rx"
proof -
  from assms have "length CMD_PREFIX \<le> length rx"
    by (rule prefix_length_le)
  then have l: "CMD_PREFIX_LEN \<le> length rx"
    by (simp add: CMD_PREFIX_def CMD_PREFIX_LEN_def)
  then show "c_str (drop CMD_PREFIX_LEN (rx @ [NUL])) = c_str (drop CMD_PREFIX_LEN rx)"
    by (simp add: c_str_terminated)
  from l show "0 < length rx"
    by (auto simp: CMD_PREFIX_LEN_def)
qed

lemma handle_command_cases:
  "handle_command hw s cmd =
     (if sublist ''MODE_SNIFF'' cmd
      then switch_mode hw (s\<lparr>esp_log := esp_log s @ [Log_command cmd]\<rparr>) MODE_SNIFF
      else if sublist ''MODE_TX'' cmd
      then switch_mode hw (s\<lparr>esp_log := esp_log s @ [Log_command cmd]\<rparr>) MODE_TX
      else if sublist ''STATUS'' cmd
      then (case rx_queue s of
              None \<Rightarrow> Inl Null_queue
            | Some q \<Rightarrow>
                Inr (s\<lparr>esp_log := esp_log s @
                       [Log_command cmd,
                        Log_status (current_mode s) (length (items q)) QUEUE_SIZE
                          (dropped_packets s)]\<rparr>))
      else Inr (s\<lparr>esp_log := esp_log s @ [Log_command cmd]\<rparr>))"
  by (simp add: handle_command_def strstr_sublist ESP_LOGI_def split: option.splits)



subsection \<open>The mode at start-up and until the first mode command\<close>

lemma receive_done_mode:
  "esp_ieee802154_receive_done s frame r m w = Inr s' \<Longrightarrow> current_mode s' = current_mode s"
  by (auto simp: esp_ieee802154_receive_done_def call_def Let_def
           split: if_splits option.splits sum.splits)

lemma uart_receive_task_iter_command:
  assumes "prefix CMD_PREFIX (uart_read_bytes arrived (BUF_SIZE - 1))"
  shows "uart_receive_task_iter hw s arrived =
           handle_command hw s
             (c_str (drop CMD_PREFIX_LEN (uart_read_bytes arrived (BUF_SIZE - 1))))"
  using assms command_rest [OF assms]
  by (simp add: uart_receive_task_iter_def Let_def is_command)

lemma uart_receive_task_iter_mode:
  assumes "\<not> mode_command arrived" and "uart_receive_task_iter hw s arrived = Inr s'"
  shows "current_mode s' = current_mode s"
proof (cases "prefix CMD_PREFIX (uart_read_bytes arrived (BUF_SIZE - 1))")
  case True
  with assms(1) have
    "\<not> sublist ''MODE_SNIFF'' (c_str (drop CMD_PREFIX_LEN (uart_read_bytes arrived (BUF_SIZE - 1))))"
    "\<not> sublist ''MODE_TX'' (c_str (drop CMD_PREFIX_LEN (uart_read_bytes arrived (BUF_SIZE - 1))))"
    by (simp_all add: mode_command_def Let_def)
  with assms(2) show ?thesis
    by (auto simp: uart_receive_task_iter_command [OF True] handle_command_cases
             split: if_splits option.splits)
next
  case False
  with assms(2) show ?thesis
    by (auto simp: uart_receive_task_iter_def Let_def is_command call_def
             split: if_splits sum.splits)
qed

lemma run_mode:
  "list_all no_mode_command evs \<Longrightarrow> run hw s evs = Inr s' \<Longrightarrow>
   current_mode s' = current_mode s"
proof (induction evs arbitrary: s)
  case Nil
  then show ?case by simp
next
  case (Cons ev evs)
  from Cons.prems(2) obtain s1 where s1: "step hw s ev = Inr s1" and r: "run hw s1 evs = Inr s'"
    by (auto split: sum.splits)
  from Cons.prems(1) have n: "no_mode_command ev" and rest: "list_all no_mode_command evs"
    by simp_all
  have "current_mode s1 = current_mode s"
  proof (cases ev)
    case (Frame_received f r m w)
    with s1 show ?thesis by (auto dest: receive_done_mode)
  next
    case (Uart_received a)
    with s1 n show ?thesis by (auto dest: uart_receive_task_iter_mode split: if_splits)
  qed
  with Cons.IH [OF rest r] show ?case by simp
qed

lemma uart_receive_task_iter_ignored:
  assumes "\<not> prefix CMD_PREFIX (uart_read_bytes arrived (BUF_SIZE - 1))"
    and "current_mode s = MODE_SNIFF"
  shows "uart_receive_task_iter hw s arrived = Inr s"
  using assms by (simp add: uart_receive_task_iter_def Let_def is_command)

text \<open>
  C4, as the claim states it, fails: the stored initial value of \<open>current_mode\<close> is
  \<open>MODE_TX\<close>.
\<close>

theorem boot_mode_counterexample: "current_mode boot_state \<noteq> MODE_SNIFF"
  by (simp add: boot_state_def)

text \<open>
  C4, amended. The variable starts as \<open>MODE_TX\<close>. Whenever \<open>app_main\<close> returns,
  the mode is \<open>MODE_SNIFF\<close>, and it stays \<open>MODE_SNIFF\<close> through every later
  sequence of frame arrivals and serial chunks that holds no mode command: the handler never
  writes \<open>current_mode\<close>, and an iteration of the serial input task writes it only
  for a mode command. So every read after start-up and before the first host-issued mode
  command yields \<open>MODE_SNIFF\<close>. When every call answers \<open>ESP_OK\<close>,
  \<open>app_main\<close> does return, having issued the capture configuration before it creates
  the two tasks. The initial \<open>MODE_TX\<close> is what lets the start-up call
  \<open>switch_mode(MODE_SNIFF)\<close> pass the guard of line 84 and configure the radio.
\<close>

theorem app_main_mode:
  "current_mode boot_state = MODE_TX \<and>
   (\<forall>s. app_main hw boot_state = Inr s \<longrightarrow>
      current_mode s = MODE_SNIFF \<and>
      (\<forall>hw' evs s'. list_all no_mode_command evs \<and> run hw' s evs = Inr s' \<longrightarrow>
         current_mode s' = MODE_SNIFF)) \<and>
   (\<forall>s frame r m w s'. esp_ieee802154_receive_done s frame r m w = Inr s' \<longrightarrow>
      current_mode s' = current_mode s) \<and>
   (\<forall>hw' s arrived s'. \<not> mode_command arrived \<and>
        uart_receive_task_iter hw' s arrived = Inr s' \<longrightarrow>
      current_mode s' = current_mode s) \<and>
   ((\<forall>l c. hw l c = ESP_OK) \<longrightarrow>
      (\<exists>s. app_main hw boot_state = Inr s \<and>
           sys_log s =
             [nvs_flash_init, uart_param_config UART_BAUD_RATE, uart_driver_install BUF_SIZE,
              esp_ieee802154_enable, esp_ieee802154_set_channel CHANNEL,
              xQueueCreate QUEUE_SIZE,
              esp_ieee802154_set_promiscuous True, esp_ieee802154_set_panid 0xFFFF,
              esp_ieee802154_set_short_address 0xFFFF,
              esp_ieee802154_set_rx_when_idle True, esp_ieee802154_receive,
              xTaskCreate ''uart_rx'' 3072 3, xTaskCreate ''uart_tx'' 4096 2]))"
proof (intro conjI allI impI)
  show "current_mode boot_state = MODE_TX" by (simp add: boot_state_def)
next
  fix s assume "app_main hw boot_state = Inr s"
  then obtain s4 where "s = app_main_tasks s4" and "current_mode s4 = MODE_SNIFF"
    by (auto simp: app_main_def split: sum.splits dest: switch_mode_result_mode)
  then show "current_mode s = MODE_SNIFF"
    by (simp add: app_main_tasks_def call_def ESP_LOGI_def)
next
  fix s hw' evs s'
  assume a: "app_main hw boot_state = Inr s"
    and r: "list_all no_mode_command evs \<and> run hw' s evs = Inr s'"
  from a obtain s4 where "s = app_main_tasks s4" and "current_mode s4 = MODE_SNIFF"
    by (auto simp: app_main_def split: sum.splits dest: switch_mode_result_mode)
  then have "current_mode s = MODE_SNIFF"
    by (simp add: app_main_tasks_def call_def ESP_LOGI_def)
  with r show "current_mode s' = MODE_SNIFF"
    using run_mode [of evs hw' s s'] by simp
next
  fix s frame r m w s'
  assume "esp_ieee802154_receive_done s frame r m w = Inr s'"
  then show "current_mode s' = current_mode s"
    by (rule receive_done_mode)
next
  fix hw' s arrived s'
  assume "\<not> mode_command arrived \<and> uart_receive_task_iter hw' s arrived = Inr s'"
  then show "current_mode s' = current_mode s"
    using uart_receive_task_iter_mode by blast
next
  assume ok: "\<forall>l c. hw l c = ESP_OK"
  have nvs: "initialize_nvs hw boot_state = Inr (call boot_state nvs_flash_init)"
    using ok by (simp add: initialize_nvs_def)
  have b: "current_mode boot_state = MODE_TX" "sys_log boot_state = []"
    by (simp_all add: boot_state_def)
  show "\<exists>s. app_main hw boot_state = Inr s \<and>
           sys_log s =
             [nvs_flash_init, uart_param_config UART_BAUD_RATE, uart_driver_install BUF_SIZE,
              esp_ieee802154_enable, esp_ieee802154_set_channel CHANNEL,
              xQueueCreate QUEUE_SIZE,
              esp_ieee802154_set_promiscuous True, esp_ieee802154_set_panid 0xFFFF,
              esp_ieee802154_set_short_address 0xFFFF,
              esp_ieee802154_set_rx_when_idle True, esp_ieee802154_receive,
              xTaskCreate ''uart_rx'' 3072 3, xTaskCreate ''uart_tx'' 4096 2]"
    using ok b
    by (simp add: app_main_def nvs ESP_ERROR_CHECK_ok app_main_queue_def switch_mode_sniff
          app_main_tasks_def call_def ESP_LOGI_def)
qed

theorem app_main_mode_witness:
  "\<exists>s s'. app_main (\<lambda>l c. ESP_OK) boot_state = Inr s \<and>
      run (\<lambda>l c. ESP_OK) s
        [Frame_received [1, 0xAB] 0 None False, Uart_received ''hello'',
         Uart_received ''#CMD#STATUS''] = Inr s' \<and>
      current_mode s = MODE_SNIFF \<and> current_mode s' = MODE_SNIFF"
proof -
  let ?hw = "\<lambda>l c. ESP_OK"
  let ?evs = "[Frame_received [1, 0xAB] 0 None False, Uart_received ''hello'',
               Uart_received ''#CMD#STATUS'']"
  have am: "app_main ?hw boot_state =
              Inr (app_main_tasks
                (ESP_LOGI
                  ((boot_state\<lparr>sys_log :=
                      [nvs_flash_init, uart_param_config UART_BAUD_RATE,
                       uart_driver_install BUF_SIZE, esp_ieee802154_enable,
                       esp_ieee802154_set_channel CHANNEL, xQueueCreate QUEUE_SIZE,
                       esp_ieee802154_set_promiscuous True, esp_ieee802154_set_panid 0xFFFF,
                       esp_ieee802154_set_short_address 0xFFFF,
                       esp_ieee802154_set_rx_when_idle True, esp_ieee802154_receive],
                     rx_queue := Some \<lparr>items = [], capacity = QUEUE_SIZE\<rparr>,
                     current_mode := MODE_SNIFF\<rparr>)) (Log_mode_sniff CHANNEL)))"
    by (simp add: app_main_def initialize_nvs_def ESP_ERROR_CHECK_def app_main_queue_def
          switch_mode_def call_def ESP_LOGI_def boot_state_def)
  then obtain s where s: "app_main ?hw boot_state = Inr s" and m: "current_mode s = MODE_SNIFF"
    and q: "rx_queue s = Some \<lparr>items = [], capacity = QUEUE_SIZE\<rparr>"
    by (simp add: app_main_tasks_def call_def ESP_LOGI_def)
  have p: "\<not> prefix CMD_PREFIX (uart_read_bytes ''hello'' (BUF_SIZE - 1))"
    "prefix CMD_PREFIX (uart_read_bytes ''#CMD#STATUS'' (BUF_SIZE - 1))"
    "c_str (drop CMD_PREFIX_LEN (uart_read_bytes ''#CMD#STATUS'' (BUF_SIZE - 1))) = ''STATUS''"
    by (simp_all add: CMD_PREFIX_def uart_read_bytes_def BUF_SIZE_def c_str_def
          CMD_PREFIX_LEN_def NUL_def)
  have n: "\<not> sublist ''MODE_SNIFF'' ''STATUS''" "\<not> sublist ''MODE_TX'' ''STATUS''"
    by (simp_all add: sublist_Cons_right prefix_Cons)
  have ok: "list_all no_mode_command ?evs"
    using p n by (simp add: mode_command_def Let_def)
  have "\<exists>s'. run ?hw s ?evs = Inr s'"
    using m q p n
    by (simp add: receive_done_alloc_failed call_def uart_receive_task_iter_ignored
          uart_receive_task_iter_command handle_command_cases)
  then obtain s' where r: "run ?hw s ?evs = Inr s'"
    by blast
  from app_main_mode [of ?hw] s ok r have "current_mode s' = MODE_SNIFF"
    by blast
  with s r m show ?thesis
    by blast
qed

end
